theory Spec2Isabelle
  imports Complex_Main
begin

section \<open>Strings\<close>

text \<open>
  A JavaScript string is a sequence of UTF-16 code units. It is modelled as a
  \<^typ>\<open>string\<close>, each \<^typ>\<open>char\<close> standing for the code unit of the same number, so the
  model covers the strings whose code units are below U+0100.
\<close>

definition dquote :: char where
  "dquote = CHR 0x22"

definition comma :: char where
  "comma = CHR '',''"

definition newline :: char where
  "newline = CHR 0x0A"

text \<open>
  The white space and line terminators that \<^verbatim>\<open>String.prototype.trim\<close> removes, as far as
  they lie below U+0100: TAB, LF, VT, FF, CR, SPACE and NO-BREAK SPACE.
\<close>

definition isWhiteSpace :: "char \<Rightarrow> bool" where
  "isWhiteSpace c = (c = CHR 0x09 \<or> c = CHR 0x0A \<or> c = CHR 0x0B \<or> c = CHR 0x0C
     \<or> c = CHR 0x0D \<or> c = CHR 0x20 \<or> c = CHR 0xA0)"

definition trim :: "string \<Rightarrow> string" where
  "trim s = rev (dropWhile isWhiteSpace (rev (dropWhile isWhiteSpace s)))"

text \<open>
  \<^verbatim>\<open>s.split(sep)\<close> for a separator of one code unit: the pieces between the separators,
  in order; a string without the separator is the only piece, also when it is empty.
\<close>

fun split_from :: "char \<Rightarrow> string \<Rightarrow> string \<Rightarrow> string list" where
  "split_from sep piece [] = [piece]"
| "split_from sep piece (c # cs) =
     (if c = sep then piece # split_from sep [] cs
      else split_from sep (piece @ [c]) cs)"

definition split :: "char \<Rightarrow> string \<Rightarrow> string list" where
  "split sep s = split_from sep [] s"

section \<open>Line tokenizer\<close>

text \<open>
  \<^verbatim>\<open>parseCSVLine\<close> (data.ts): the loop over \<^verbatim>\<open>line[i]\<close> with the variables
  \<^verbatim>\<open>result\<close>, \<^verbatim>\<open>current\<close> and \<^verbatim>\<open>inQuotes\<close>. The recursion is on the characters
  still to be read. Nothing in the body can throw, so the handler that returns the
  empty array is never entered.
\<close>

fun scan :: "string \<Rightarrow> string list \<Rightarrow> string \<Rightarrow> bool \<Rightarrow> string list" where
  "scan [] result current inQuotes = result @ [trim current]"
| "scan (char # rest) result current inQuotes =
     (if char = dquote then scan rest result current (\<not> inQuotes)
      else if char = comma \<and> \<not> inQuotes then scan rest (result @ [trim current]) [] inQuotes
      else scan rest result (current @ [char]) inQuotes)"

definition parseCSVLine :: "string \<Rightarrow> string list" where
  "parseCSVLine line = scan line [] [] False"

section \<open>Numbers\<close>

text \<open>
  A JavaScript number is NaN, one of the two infinities, or a finite value, here a
  rational; the sign of zero is outside the model. The operations of this section are
  exact on finite values. The row normalizer and the fallback generator are modelled with
  them, so the rounding of a finite result to binary64 and its overflow to Infinity are
  outside their model. The aggregator is modelled with the binary64 operations of the
  section on binary64 arithmetic below.
\<close>

datatype number = NaN | PosInf | NegInf | Fin rat

definition isNaN :: "number \<Rightarrow> bool" where
  "isNaN x = (x = NaN)"

text \<open>\<^verbatim>\<open>a < b\<close> on numbers: false as soon as one side is NaN.\<close>

fun num_less :: "number \<Rightarrow> number \<Rightarrow> bool" where
  "num_less NaN b = False"
| "num_less a NaN = False"
| "num_less PosInf b = False"
| "num_less a NegInf = False"
| "num_less NegInf b = True"
| "num_less a PosInf = True"
| "num_less (Fin a) (Fin b) = (a < b)"

fun num_add :: "number \<Rightarrow> number \<Rightarrow> number" where
  "num_add NaN b = NaN"
| "num_add a NaN = NaN"
| "num_add PosInf NegInf = NaN"
| "num_add NegInf PosInf = NaN"
| "num_add PosInf b = PosInf"
| "num_add NegInf b = NegInf"
| "num_add a PosInf = PosInf"
| "num_add a NegInf = NegInf"
| "num_add (Fin a) (Fin b) = Fin (a + b)"

fun num_neg :: "number \<Rightarrow> number" where
  "num_neg NaN = NaN"
| "num_neg PosInf = NegInf"
| "num_neg NegInf = PosInf"
| "num_neg (Fin a) = Fin (- a)"

definition num_sub :: "number \<Rightarrow> number \<Rightarrow> number" where
  "num_sub a b = num_add a (num_neg b)"

text \<open>The infinity whose sign is that of the product of an infinity and a finite factor.\<close>

definition scaled_inf :: "bool \<Rightarrow> rat \<Rightarrow> number" where
  "scaled_inf positive r =
     (if r = 0 then NaN else if positive = (0 < r) then PosInf else NegInf)"

fun num_mul :: "number \<Rightarrow> number \<Rightarrow> number" where
  "num_mul NaN b = NaN"
| "num_mul a NaN = NaN"
| "num_mul PosInf PosInf = PosInf"
| "num_mul PosInf NegInf = NegInf"
| "num_mul NegInf PosInf = NegInf"
| "num_mul NegInf NegInf = PosInf"
| "num_mul PosInf (Fin b) = scaled_inf True b"
| "num_mul NegInf (Fin b) = scaled_inf False b"
| "num_mul (Fin a) PosInf = scaled_inf True a"
| "num_mul (Fin a) NegInf = scaled_inf False a"
| "num_mul (Fin a) (Fin b) = Fin (a * b)"

text \<open>Division; a zero divisor is taken as positive zero.\<close>

fun num_div :: "number \<Rightarrow> number \<Rightarrow> number" where
  "num_div NaN b = NaN"
| "num_div a NaN = NaN"
| "num_div (Fin a) PosInf = Fin 0"
| "num_div (Fin a) NegInf = Fin 0"
| "num_div a PosInf = NaN"
| "num_div a NegInf = NaN"
| "num_div PosInf (Fin b) = (if 0 \<le> b then PosInf else NegInf)"
| "num_div NegInf (Fin b) = (if 0 \<le> b then NegInf else PosInf)"
| "num_div (Fin a) (Fin b) =
     (if b = 0 then (if a = 0 then NaN else if 0 < a then PosInf else NegInf)
      else Fin (a / b))"

text \<open>
  \<^verbatim>\<open>Math.round\<close>: the nearest integer, a tie going to the larger one; NaN and the
  infinities are returned as they are.
\<close>

fun Math_round :: "number \<Rightarrow> number" where
  "Math_round (Fin a) = Fin (of_int \<lfloor>a + 1 / 2\<rfloor>)"
| "Math_round a = a"

text \<open>\<^verbatim>\<open>Math.max\<close> of two numbers: NaN as soon as one of them is NaN.\<close>

definition Math_max :: "number \<Rightarrow> number \<Rightarrow> number" where
  "Math_max a b = (if isNaN a \<or> isNaN b then NaN else if num_less a b then b else a)"

text \<open>The expression \<^verbatim>\<open>Math.round(x * 100) / 100\<close> of the two producers, in exact arithmetic.\<close>

definition round2 :: "number \<Rightarrow> number" where
  "round2 x = num_div (Math_round (num_mul x (Fin 100))) (Fin 100)"

text \<open>
  \<^verbatim>\<open>parseFloat\<close>: leading white space is skipped, then the longest prefix that is a decimal
  literal (sign, \<^verbatim>\<open>Infinity\<close> or digits with an optional fraction and exponent) gives the
  value; NaN when there is no such prefix.
\<close>

definition isDigit :: "char \<Rightarrow> bool" where
  "isDigit c = (48 \<le> (of_char c :: nat) \<and> (of_char c :: nat) \<le> 57)"

definition digitsVal :: "string \<Rightarrow> nat" where
  "digitsVal ds = foldl (\<lambda>v c. 10 * v + ((of_char c :: nat) - 48)) 0 ds"

definition exponentFactor :: "string \<Rightarrow> rat" where
  "exponentFactor s =
     (if take 1 s = ''e'' \<or> take 1 s = ''E'' then
        (let signed = drop 1 s;
             negative = (take 1 signed = ''-'');
             unsigned = (if take 1 signed = ''-'' \<or> take 1 signed = ''+''
                         then drop 1 signed else signed);
             ds = takeWhile isDigit unsigned
         in if ds = [] then 1
            else if negative then 1 / 10 ^ digitsVal ds else 10 ^ digitsVal ds)
      else 1)"

definition parseFloat :: "string \<Rightarrow> number" where
  "parseFloat inputString =
     (let trimmed = dropWhile isWhiteSpace inputString;
          negative = (take 1 trimmed = ''-'');
          unsigned = (if take 1 trimmed = ''-'' \<or> take 1 trimmed = ''+''
                      then drop 1 trimmed else trimmed)
      in if take 8 unsigned = ''Infinity'' then (if negative then NegInf else PosInf)
         else
           (let intDigits = takeWhile isDigit unsigned;
                afterInt = dropWhile isDigit unsigned;
                hasDot = (take 1 afterInt = ''.'');
                fracDigits = (if hasDot then takeWhile isDigit (drop 1 afterInt) else []);
                afterFrac = (if hasDot then dropWhile isDigit (drop 1 afterInt) else afterInt)
            in if intDigits = [] \<and> fracDigits = [] then NaN
               else
                 (let mantissa = of_nat (digitsVal intDigits)
                        + of_nat (digitsVal fracDigits) / 10 ^ length fracDigits;
                      v = mantissa * exponentFactor afterFrac
                  in Fin (if negative then - v else v))))"

text \<open>
  \<^verbatim>\<open>String.prototype.toLowerCase\<close> below U+0100: the letters A to Z and the accented
  capitals U+00C0 to U+00DE (U+00D7, the multiplication sign, apart) move up by 32.
\<close>

definition lowerChar :: "char \<Rightarrow> char" where
  "lowerChar c =
     (let n = (of_char c :: nat)
      in if (65 \<le> n \<and> n \<le> 90) \<or> (192 \<le> n \<and> n \<le> 222 \<and> n \<noteq> 215)
         then char_of (n + 32) else c)"

definition toLowerCase :: "string \<Rightarrow> string" where
  "toLowerCase s = map lowerChar s"

section \<open>Dates\<close>

text \<open>
  What the row normalizer reads of a \<^verbatim>\<open>Date\<close>: whether its time value is NaN and, if not,
  the full year and the month in local time. How a string becomes a \<^verbatim>\<open>Date\<close> depends on
  the engine and on its time zone, so \<^verbatim>\<open>new Date(s)\<close> is a parameter of the model.
\<close>

datatype month_name = January | February | March | April | May | June
  | July | August | September | October | November | December

datatype jsdate = Invalid_Date | Valid_Date int month_name

text \<open>\<^verbatim>\<open>getMonth()\<close> counts the months from zero.\<close>

fun getMonth :: "month_name \<Rightarrow> int" where
  "getMonth January = 0"
| "getMonth February = 1"
| "getMonth March = 2"
| "getMonth April = 3"
| "getMonth May = 4"
| "getMonth June = 5"
| "getMonth July = 6"
| "getMonth August = 7"
| "getMonth September = 8"
| "getMonth October = 9"
| "getMonth November = 10"
| "getMonth December = 11"

text \<open>
  One such engine, for the examples: local time is UTC and only the date-only ISO form
  \<^verbatim>\<open>YYYY-MM-DD\<close> of a calendar day is accepted.
\<close>

definition monthOfNat :: "nat \<Rightarrow> month_name" where
  "monthOfNat m = [January, February, March, April, May, June,
     July, August, September, October, November, December] ! (m - 1)"

definition daysInMonth :: "nat \<Rightarrow> nat \<Rightarrow> nat" where
  "daysInMonth y m =
     (if m = 2 then (if y mod 4 = 0 \<and> (y mod 100 \<noteq> 0 \<or> y mod 400 = 0) then 29 else 28)
      else if m = 4 \<or> m = 6 \<or> m = 9 \<or> m = 11 then 30 else 31)"

definition isoDateUTC :: "string \<Rightarrow> jsdate" where
  "isoDateUTC s =
     (let y = digitsVal (take 4 s); m = digitsVal (take 2 (drop 5 s));
          d = digitsVal (take 2 (drop 8 s))
      in if length s = 10 \<and> list_all isDigit (take 4 s) \<and> take 1 (drop 4 s) = ''-''
            \<and> list_all isDigit (take 2 (drop 5 s)) \<and> take 1 (drop 7 s) = ''-''
            \<and> list_all isDigit (take 2 (drop 8 s))
            \<and> 1 \<le> m \<and> m \<le> 12 \<and> 1 \<le> d \<and> d \<le> daysInMonth y m
         then Valid_Date (int y) (monthOfNat m) else Invalid_Date)"

section \<open>Row normalizer\<close>

text \<open>The interface \<^verbatim>\<open>RSPDataPoint\<close>. The year and the month hold integers.\<close>

record RSPDataPoint =
  city :: string
  fuelType :: string
  year :: int
  month :: int
  rsp :: number

text \<open>
  One turn of the loop of \<^verbatim>\<open>parseCSVData\<close> on the line \<^verbatim>\<open>lines[i]\<close>: a blank line is
  passed over, a rejected row counts as skipped, an accepted one is pushed. The checks
  are those of the source, in its order. No statement of the body can throw, so the
  handler of the inner \<^verbatim>\<open>try\<close> is never entered.
\<close>

datatype row_result = Blank | Skipped | Pushed RSPDataPoint

text \<open>
  The price of a row from its trimmed price field: the conditional expression that the
  source assigns to \<^verbatim>\<open>rsp\<close>.
\<close>

definition priceOf :: "string \<Rightarrow> number" where
  "priceOf rspValue =
     (if rspValue = [] \<or> rspValue = ''NA'' \<or> rspValue = ''N/A'' then Fin 0
      else parseFloat rspValue)"

definition processRow :: "(string \<Rightarrow> jsdate) \<Rightarrow> string \<Rightarrow> row_result" where
  "processRow newDate rawLine =
     (let line = trim rawLine
      in if line = [] then Blank
         else
           (let columns = parseCSVLine line
            in if length columns < 7 then Skipped
               else
                 (let cityName = trim (columns ! 5);
                      product = toLowerCase (trim (columns ! 4));
                      rspValue = trim (columns ! 6);
                      dateStr = trim (columns ! 3)
                  in if cityName = [] \<or> product = [] \<or> rspValue = [] \<or> dateStr = []
                     then Skipped
                     else if product \<noteq> ''petrol'' \<and> product \<noteq> ''diesel'' then Skipped
                     else
                       (case newDate dateStr of
                          Invalid_Date \<Rightarrow> Skipped
                        | Valid_Date fullYear m \<Rightarrow>
                            if fullYear < 2017 \<or> fullYear > 2025 then Skipped
                            else
                              (let price = priceOf rspValue
                               in if isNaN price \<or> num_less price (Fin 0) then Skipped
                                  else Pushed \<lparr>city = cityName, fuelType = product,
                                         year = fullYear, month = getMonth m + 1,
                                         rsp = round2 price\<rparr>)))))"

text \<open>The loop, with its three variables; the recursion is on the lines still to be read.\<close>

record parse_state =
  data :: "RSPDataPoint list"
  validRows :: nat
  skippedRows :: nat

fun rowsLoop :: "(string \<Rightarrow> jsdate) \<Rightarrow> string list \<Rightarrow> parse_state \<Rightarrow> parse_state" where
  "rowsLoop newDate [] st = st"
| "rowsLoop newDate (l # ls) st =
     (case processRow newDate l of
        Blank \<Rightarrow> rowsLoop newDate ls st
      | Skipped \<Rightarrow> rowsLoop newDate ls (st\<lparr>skippedRows := skippedRows st + 1\<rparr>)
      | Pushed p \<Rightarrow>
          rowsLoop newDate ls (st\<lparr>data := data st @ [p], validRows := validRows st + 1\<rparr>))"

text \<open>
  The two failures of \<^verbatim>\<open>parseCSVData\<close>, as the messages of the \<^verbatim>\<open>Error\<close> that leaves the
  function: the outer handler puts its prefix before the message thrown inside.
\<close>

definition EmptySourceError :: string where
  "EmptySourceError =
     ''CSV parsing failed: '' @ ''CSV file must have at least a header and one data row''"

definition NoValidRowsError :: string where
  "NoValidRowsError = ''CSV parsing failed: '' @ ''No valid data rows found in CSV file''"

definition parseCSVData :: "(string \<Rightarrow> jsdate) \<Rightarrow> string \<Rightarrow> string + RSPDataPoint list" where
  "parseCSVData newDate csvText =
     (let lines = split newline csvText
      in if length lines < 2 then Inl EmptySourceError
         else
           (let st = rowsLoop newDate (drop 1 lines) \<lparr>data = [], validRows = 0, skippedRows = 0\<rparr>
            in if validRows st = 0 then Inl NoValidRowsError else Inr (data st)))"

text \<open>
  The rows that survive validation, in the order of their lines: what the specification
  calls the accumulated valid rows.
\<close>

definition survivors :: "(string \<Rightarrow> jsdate) \<Rightarrow> string list \<Rightarrow> RSPDataPoint list" where
  "survivors newDate ls =
     concat (map (\<lambda>l. case processRow newDate l of Pushed p \<Rightarrow> [p] | _ \<Rightarrow> []) ls)"

section \<open>Binary64 arithmetic\<close>

text \<open>
  The finite binary64 values are the numbers \<open>m * 2 ^ e\<close> with \<open>m\<close> below \<open>2 ^ 53\<close> in
  absolute value and \<open>e\<close> from \<open>- 1074\<close> to \<open>971\<close>. An arithmetic operation of JavaScript
  returns the exact result rounded to the nearest of them, a tie going to the even
  \<open>m\<close>, and an infinity when the rounded result is beyond the largest.
\<close>

text \<open>The number of binary digits of a positive integer.\<close>

function bitLength :: "int \<Rightarrow> int" where
  "bitLength n = (if n \<le> 0 then 0 else 1 + bitLength (n div 2))"
  by auto
termination
  by (relation "measure nat") auto

declare bitLength.simps [simp del]

definition pow2 :: "int \<Rightarrow> rat" where
  "pow2 e = (if 0 \<le> e then 2 ^ nat e else 1 / 2 ^ nat (- e))"

text \<open>
  For a positive rational \<open>a\<close>, the exponent \<open>e\<close> with \<open>2 ^ e \<le> a < 2 ^ (e + 1)\<close>: the
  difference of the bit lengths of numerator and denominator, or one less.
\<close>

definition exponentOf :: "rat \<Rightarrow> int" where
  "exponentOf a =
     (let d = bitLength (fst (quotient_of a)) - bitLength (snd (quotient_of a))
      in if pow2 d \<le> a then d else d - 1)"

definition roundHalfEven :: "rat \<Rightarrow> int" where
  "roundHalfEven q =
     (let n = \<lfloor>q\<rfloor>; r = q - of_int n
      in if r < 1 / 2 then n else if 1 / 2 < r then n + 1
         else if even n then n else n + 1)"

text \<open>
  The binary64 value nearest to a rational. The exponent of the last binary digit kept is
  that of the value less 52, and not below \<open>- 1074\<close> (the subnormal range).
\<close>

definition nearest :: "rat \<Rightarrow> number" where
  "nearest x =
     (if x = 0 then Fin 0
      else
        (let a = \<bar>x\<bar>;
             e = max (exponentOf a - 52) (- 1074);
             m = roundHalfEven (a / pow2 e)
         in if 971 < e \<or> (e = 971 \<and> 2 ^ 53 \<le> m)
            then (if x < 0 then NegInf else PosInf)
            else Fin ((if x < 0 then - 1 else 1) * of_int m * pow2 e)))"

definition toBinary64 :: "number \<Rightarrow> number" where
  "toBinary64 x = (case x of Fin r \<Rightarrow> nearest r | special \<Rightarrow> special)"

text \<open>\<^verbatim>\<open>a + b\<close>, \<^verbatim>\<open>a * b\<close> and \<^verbatim>\<open>a / b\<close> on binary64 values.\<close>

definition f64_add :: "number \<Rightarrow> number \<Rightarrow> number" where
  "f64_add a b = toBinary64 (num_add a b)"

definition f64_mul :: "number \<Rightarrow> number \<Rightarrow> number" where
  "f64_mul a b = toBinary64 (num_mul a b)"

definition f64_div :: "number \<Rightarrow> number \<Rightarrow> number" where
  "f64_div a b = toBinary64 (num_div a b)"

text \<open>
  The expression \<^verbatim>\<open>Math.round(x * 100) / 100\<close> of the aggregator. \<^verbatim>\<open>Math.round\<close> of a
  binary64 value is exact.
\<close>

definition round2_f64 :: "number \<Rightarrow> number" where
  "round2_f64 x = f64_div (Math_round (f64_mul x (Fin 100))) (Fin 100)"

section \<open>Aggregator\<close>

text \<open>
  \<^verbatim>\<open>getMonthlyAverages\<close> checks its arguments at run time, so they are values of any type:
  \<^verbatim>\<open>undefined\<close>, \<^verbatim>\<open>null\<close>, a boolean, a number, a string, an array of data points, or
  some other object.
\<close>

datatype jsval = Undefined | Null | Bool bool | Num number | Str string
  | Arr "RSPDataPoint list" | Object

text \<open>\<^verbatim>\<open>!v\<close> is the negation of this.\<close>

fun truthy :: "jsval \<Rightarrow> bool" where
  "truthy Undefined = False"
| "truthy Null = False"
| "truthy (Bool b) = b"
| "truthy (Num n) = (\<not> isNaN n \<and> n \<noteq> Fin 0)"
| "truthy (Str s) = (s \<noteq> [])"
| "truthy (Arr ds) = True"
| "truthy Object = True"

fun typeOf :: "jsval \<Rightarrow> string" where
  "typeOf Undefined = ''undefined''"
| "typeOf Null = ''object''"
| "typeOf (Bool b) = ''boolean''"
| "typeOf (Num n) = ''number''"
| "typeOf (Str s) = ''string''"
| "typeOf (Arr ds) = ''object''"
| "typeOf Object = ''object''"

fun isArray :: "jsval \<Rightarrow> bool" where
  "isArray (Arr ds) = True"
| "isArray v = False"

text \<open>\<^verbatim>\<open>Number.isInteger\<close>: a finite number without fractional part.\<close>

fun isInteger :: "jsval \<Rightarrow> bool" where
  "isInteger (Num (Fin r)) = (r = of_int \<lfloor>r\<rfloor>)"
| "isInteger v = False"

text \<open>
  The number that a value of type number is. The source compares \<^verbatim>\<open>year\<close> with the
  bounds only after \<^verbatim>\<open>Number.isInteger(year)\<close> held, so no other value gets here.
\<close>

fun numberOf :: "jsval \<Rightarrow> number" where
  "numberOf (Num n) = n"
| "numberOf v = NaN"

fun elements :: "jsval \<Rightarrow> RSPDataPoint list" where
  "elements (Arr ds) = ds"
| "elements v = []"

text \<open>
  The callback of \<^verbatim>\<open>forEach\<close>, on the two arrays \<^verbatim>\<open>monthlyTotals\<close> and
  \<^verbatim>\<open>monthlyCounts\<close>. The field \<^verbatim>\<open>rsp\<close> is a number by its type.
\<close>

definition accumulate ::
  "RSPDataPoint \<Rightarrow> number list \<times> nat list \<Rightarrow> number list \<times> nat list" where
  "accumulate d acc =
     (let monthlyTotals = fst acc; monthlyCounts = snd acc
      in if month d \<ge> 1 \<and> month d \<le> 12 \<and> \<not> isNaN (rsp d)
         then (monthlyTotals[nat (month d - 1) :=
                 f64_add (monthlyTotals ! nat (month d - 1)) (rsp d)],
               monthlyCounts[nat (month d - 1) := monthlyCounts ! nat (month d - 1) + 1])
         else (monthlyTotals, monthlyCounts))"

text \<open>
  The body of the \<^verbatim>\<open>try\<close> block: \<open>Inl\<close> carries the message of the \<^verbatim>\<open>Error\<close> thrown.
  \<^verbatim>\<open>===\<close> between a string or a finite number and a value holds when the value is that
  string or that number.
\<close>

definition monthlyAveragesBody ::
  "jsval \<Rightarrow> jsval \<Rightarrow> jsval \<Rightarrow> jsval \<Rightarrow> string + number list" where
  "monthlyAveragesBody dataArg cityArg fuelArg yearArg =
     (if \<not> isArray dataArg then Inl ''Data must be an array''
      else if \<not> truthy cityArg \<or> typeOf cityArg \<noteq> ''string''
        then Inl ''City must be a non-empty string''
      else if \<not> truthy fuelArg \<or> \<not> (fuelArg = Str ''petrol'' \<or> fuelArg = Str ''diesel'')
        then Inl ''Fuel type must be either \"petrol\" or \"diesel\"''
      else if \<not> isInteger yearArg \<or> num_less (numberOf yearArg) (Fin 2017)
              \<or> num_less (Fin 2025) (numberOf yearArg)
        then Inl ''Year must be an integer between 2017 and 2025''
      else
        (let filteredData = filter (\<lambda>d. Str (city d) = cityArg \<and> Str (fuelType d) = fuelArg
                                      \<and> Num (Fin (of_int (year d))) = yearArg)
                              (elements dataArg)
         in if length filteredData = 0 then Inr (replicate 12 (Fin 0))
            else
              (let acc = fold accumulate filteredData (replicate 12 (Fin 0), replicate 12 0)
               in Inr (map (\<lambda>(total, count).
                              if count > 0
                              then round2_f64 (f64_div total (Fin (of_nat count)))
                              else Fin 0)
                         (zip (fst acc) (snd acc))))))"

text \<open>The handler turns every error into twelve zeros.\<close>

definition getMonthlyAverages :: "jsval \<Rightarrow> jsval \<Rightarrow> jsval \<Rightarrow> jsval \<Rightarrow> number list" where
  "getMonthlyAverages dataArg cityArg fuelArg yearArg =
     (case monthlyAveragesBody dataArg cityArg fuelArg yearArg of
        Inl error \<Rightarrow> replicate 12 (Fin 0)
      | Inr series \<Rightarrow> series)"



section \<open>Fallback generator\<close>

definition metroCities :: "string list" where
  "metroCities = [''Mumbai'', ''Delhi'', ''Chennai'', ''Kolkata'']"

definition fuelTypes :: "string list" where
  "fuelTypes = [''petrol'', ''diesel'']"

definition availableYears :: "int list" where
  "availableYears = [2017, 2018, 2019, 2020, 2021, 2022, 2023, 2024, 2025]"

text \<open>
  The lookup table of \<^verbatim>\<open>getCityMultiplier\<close>; a key that is absent, or whose value is zero,
  gives 1. The properties that an object literal inherits are not part of the table.
\<close>

definition multipliers :: "(string \<times> number) list" where
  "multipliers =
     [(''Mumbai'', Fin (12 / 10)), (''Delhi'', Fin (11 / 10)), (''Bangalore'', Fin (115 / 100)),
      (''Chennai'', Fin (105 / 100)), (''Kolkata'', Fin 1), (''Hyderabad'', Fin (108 / 100)),
      (''Pune'', Fin (112 / 100)), (''Ahmedabad'', Fin (95 / 100)), (''Jaipur'', Fin (98 / 100)),
      (''Lucknow'', Fin (92 / 100))]"

definition getCityMultiplier :: "string \<Rightarrow> number" where
  "getCityMultiplier c =
     (case map_of multipliers c of
        None \<Rightarrow> Fin 1
      | Some v \<Rightarrow> if truthy (Num v) then v else Fin 1)"

definition variations :: "number list" where
  "variations = [Fin (- 5), Fin (- 3), Fin 2, Fin 5, Fin 8, Fin 10, Fin 12, Fin 10, Fin 5,
     Fin 0, Fin (- 2), Fin (- 4)]"

definition getMonthVariation :: "int \<Rightarrow> number" where
  "getMonthVariation m =
     (if 0 \<le> m - 1 \<and> nat (m - 1) < length variations
         \<and> truthy (Num (variations ! nat (m - 1)))
      then variations ! nat (m - 1) else Fin 0)"

text \<open>
  The record pushed for one city, fuel type, year and month; \<open>r\<close> is what
  \<^verbatim>\<open>Math.random()\<close> returned for it.
\<close>

definition samplePoint :: "string \<Rightarrow> string \<Rightarrow> int \<Rightarrow> int \<Rightarrow> rat \<Rightarrow> RSPDataPoint" where
  "samplePoint c f y m r =
     (let basePrice = (if f = ''petrol'' then Fin 80 else Fin 75);
          cityMultiplier = getCityMultiplier c;
          yearMultiplier = num_add (Fin 1) (num_mul (num_sub (Fin (of_int y)) (Fin 2021))
                                                    (Fin (5 / 100)));
          monthVariation = getMonthVariation m;
          randomVariation = num_mul (num_sub (Fin r) (Fin (5 / 10))) (Fin 10);
          price = Math_max (Fin 0)
                    (num_add (num_add (num_mul (num_mul basePrice cityMultiplier) yearMultiplier)
                                      monthVariation)
                             randomVariation)
      in \<lparr>city = c, fuelType = f, year = y, month = m, rsp = round2 price\<rparr>)"

text \<open>
  \<^verbatim>\<open>Math.random\<close> is a parameter: \<open>random n\<close> is the value of its call number \<open>n\<close>
  (from zero). The state of the loops is the array built so far and the number of calls
  made.
\<close>

record gen_state =
  points :: "RSPDataPoint list"
  calls :: nat

definition pushSample ::
  "(nat \<Rightarrow> rat) \<Rightarrow> string \<times> string \<times> int \<times> int \<Rightarrow> gen_state \<Rightarrow> gen_state" where
  "pushSample random k st =
     (case k of (c, f, y, m) \<Rightarrow>
        \<lparr>points = points st @ [samplePoint c f y m (random (calls st))],
         calls = calls st + 1\<rparr>)"

definition generateSampleData :: "(nat \<Rightarrow> rat) \<Rightarrow> RSPDataPoint list" where
  "generateSampleData random =
     points
       (fold (\<lambda>c. fold (\<lambda>f. fold (\<lambda>y. fold (\<lambda>m. pushSample random (c, f, y, m)) [1..12])
                                 availableYears)
                        fuelTypes)
             metroCities \<lparr>points = [], calls = 0\<rparr>)"

section \<open>Notions used in the statements\<close>


text \<open>
  A stretch of a line that is one field: read from the flag \<open>inQuotes\<close>, each of its
  commas is met inside quotes.
\<close>

fun commasInQuotes :: "bool \<Rightarrow> string \<Rightarrow> bool" where
  "commasInQuotes inQuotes [] = True"
| "commasInQuotes inQuotes (c # cs) =
     (if c = dquote then commasInQuotes (\<not> inQuotes) cs
      else (c \<noteq> comma \<or> inQuotes) \<and> commasInQuotes inQuotes cs)"

text \<open>
  The cross product of the fixed cities, fuel types, years and the twelve months, in the
  order of the four nested loops, and the key of a record in it.
\<close>

definition crossProduct :: "(string \<times> string \<times> int \<times> int) list" where
  "crossProduct =
     List.product metroCities (List.product fuelTypes (List.product availableYears [1..12]))"

definition keyOf :: "RSPDataPoint \<Rightarrow> string \<times> string \<times> int \<times> int" where
  "keyOf p = (city p, fuelType p, year p, month p)"

section \<open>Properties of the tokenizer\<close>

lemma set_trim_subset: "set (trim s) \<subseteq> set s"
proof
  fix x assume "x \<in> set (trim s)"
  then have "x \<in> set (dropWhile isWhiteSpace (rev (dropWhile isWhiteSpace s)))"
    by (simp add: trim_def)
  then have "x \<in> set (rev (dropWhile isWhiteSpace s))"
    by (rule set_dropWhileD)
  then have "x \<in> set (dropWhile isWhiteSpace s)"
    by simp
  then show "x \<in> set s"
    by (rule set_dropWhileD)
qed

text \<open>
  The invariant of the loop: no field pushed so far and not the buffer either holds a
  double quote.
\<close>

lemma scan_no_dquote:
  "\<forall>g \<in> set result. dquote \<notin> set g \<Longrightarrow> dquote \<notin> set current \<Longrightarrow>
   \<forall>g \<in> set (scan line result current inQuotes). dquote \<notin> set g"
proof (induction line arbitrary: result current inQuotes)
  case Nil
  have "dquote \<notin> set (trim current)"
    using Nil(2) set_trim_subset by blast
  with Nil(1) show ?case by simp
next
  case (Cons char rest)
  have t: "dquote \<notin> set (trim current)"
    using Cons.prems(2) set_trim_subset by blast
  show ?case
  proof (cases "char = dquote")
    case True
    have "scan (char # rest) result current inQuotes = scan rest result current (\<not> inQuotes)"
      using True by simp
    then show ?thesis using Cons.IH[OF Cons.prems] by metis
  next
    case nq: False
    show ?thesis
    proof (cases "char = comma \<and> \<not> inQuotes")
      case True
      have e: "scan (char # rest) result current inQuotes
            = scan rest (result @ [trim current]) [] inQuotes"
        using nq True by simp
      have "\<forall>g \<in> set (result @ [trim current]). dquote \<notin> set g"
        using Cons.prems(1) t by simp
      then have "\<forall>g \<in> set (scan rest (result @ [trim current]) [] inQuotes). dquote \<notin> set g"
        by (rule Cons.IH) simp
      then show ?thesis unfolding e .
    next
      case False
      have e: "scan (char # rest) result current inQuotes
            = scan rest result (current @ [char]) inQuotes"
        using nq False by auto
      have "dquote \<notin> set (current @ [char])" using nq Cons.prems(2) by auto
      with Cons.prems(1)
      have "\<forall>g \<in> set (scan rest result (current @ [char]) inQuotes). dquote \<notin> set g"
        by (rule Cons.IH)
      then show ?thesis unfolding e .
    qed
  qed
qed

text \<open>
  C10. No field that \<^verbatim>\<open>parseCSVLine\<close> returns contains a double quote, whatever the line,
  also when a quote is left open at its end.
\<close>

theorem parseCSVLine_no_dquote:
  "\<forall>field \<in> set (parseCSVLine line). dquote \<notin> set field"
  unfolding parseCSVLine_def by (rule scan_no_dquote) simp_all

theorem parseCSVLine_no_dquote_witness:
  "dquote \<notin> set (parseCSVLine (''a,'' @ dquote # ''b,c'') ! 1)
   \<and> parseCSVLine (''a,'' @ dquote # ''b,c'') ! 1 = ''b,c''"
proof -
  have v: "parseCSVLine (''a,'' @ dquote # ''b,c'') = [''a'', ''b,c'']"
    by (simp add: parseCSVLine_def dquote_def comma_def trim_def isWhiteSpace_def)
  have "parseCSVLine (''a,'' @ dquote # ''b,c'') ! 1 \<in> set (parseCSVLine (''a,'' @ dquote # ''b,c''))"
    unfolding v by simp
  with parseCSVLine_no_dquote [of "''a,'' @ dquote # ''b,c''"]
  have "dquote \<notin> set (parseCSVLine (''a,'' @ dquote # ''b,c'') ! 1)"
    by blast
  then show ?thesis unfolding v by simp
qed

lemma scan_split:
  "dquote \<notin> set line \<Longrightarrow>
   scan line result current False = result @ map trim (split_from comma current line)"
  by (induction line arbitrary: result current) auto

text \<open>
  C6 (as amended). For every line without a double quote, \<^verbatim>\<open>parseCSVLine\<close> returns the
  pieces of the naive split of the line at the commas, each piece trimmed of leading and
  trailing white space.
\<close>

theorem parseCSVLine_split_trim:
  "dquote \<notin> set line \<Longrightarrow> parseCSVLine line = map trim (split comma line)"
  by (simp add: parseCSVLine_def split_def scan_split)

theorem parseCSVLine_split_trim_witness:
  "dquote \<notin> set ''a, b'' \<and> parseCSVLine ''a, b'' = [''a'', ''b'']"
proof -
  have h: "dquote \<notin> set ''a, b''" by (simp add: dquote_def)
  have "map trim (split comma ''a, b'') = [''a'', ''b'']" by code_simp
  with parseCSVLine_split_trim [OF h] h show ?thesis by simp
qed

text \<open>
  C6 as stated fails where a field has white space at an end: the line \<^verbatim>\<open>a, b\<close> has no
  quote, its naive split keeps the blank before \<^verbatim>\<open>b\<close>, the tokenizer removes it.
\<close>

theorem parseCSVLine_not_naive_split:
  "dquote \<notin> set ''a, b'' \<and> parseCSVLine ''a, b'' \<noteq> split comma ''a, b''"
  by (simp add: parseCSVLine_def split_def dquote_def comma_def trim_def isWhiteSpace_def)

lemma scan_result:
  "scan line (r # result) current inQuotes = r # scan line result current inQuotes"
  by (induction line arbitrary: result current inQuotes) auto

lemma comma_not_dquote: "comma \<noteq> dquote"
  by (simp add: comma_def dquote_def)

text \<open>
  Reading one field: the characters other than quotes go to the buffer, and the flag
  changes with each quote.
\<close>

lemma scan_field:
  "commasInQuotes inQuotes seg \<Longrightarrow>
   scan (seg @ rest) result current inQuotes
     = scan rest result (current @ filter (\<lambda>c. c \<noteq> dquote) seg)
         (inQuotes \<noteq> odd (length (filter (\<lambda>c. c = dquote) seg)))"
proof (induction seg arbitrary: current inQuotes)
  case Nil
  then show ?case by simp
next
  case (Cons c seg)
  show ?case
  proof (cases "c = dquote")
    case True
    with Cons.prems have "commasInQuotes (\<not> inQuotes) seg" by simp
    from Cons.IH[OF this, of current] True show ?thesis by auto
  next
    case False
    with Cons.prems have "commasInQuotes inQuotes seg" and "c \<noteq> comma \<or> inQuotes"
      by simp_all
    with Cons.IH[of inQuotes "current @ [c]"] False show ?thesis by auto
  qed
qed

lemma field_then_comma:
  assumes "commasInQuotes False seg" and "even (length (filter (\<lambda>c. c = dquote) seg))"
  shows "parseCSVLine (seg @ comma # rest)
       = trim (filter (\<lambda>c. c \<noteq> dquote) seg) # parseCSVLine rest"
proof -
  have "scan (seg @ comma # rest) [] [] False
      = scan (comma # rest) [] (filter (\<lambda>c. c \<noteq> dquote) seg) False"
    using scan_field[OF assms(1), of "comma # rest" "[]" "[]"] assms(2) by simp
  also have "\<dots> = scan rest [trim (filter (\<lambda>c. c \<noteq> dquote) seg)] [] False"
    using comma_not_dquote by simp
  also have "\<dots> = trim (filter (\<lambda>c. c \<noteq> dquote) seg) # scan rest [] [] False"
    by (rule scan_result)
  finally show ?thesis by (simp add: parseCSVLine_def)
qed

lemma field_at_end:
  assumes "commasInQuotes False seg"
  shows "parseCSVLine seg = [trim (filter (\<lambda>c. c \<noteq> dquote) seg)]"
  using scan_field[OF assms, of "[]" "[]" "[]"] by (simp add: parseCSVLine_def)

text \<open>
  C7. Let \<open>seg\<close> be a stretch of the line in which every comma stands inside quotes. When
  its quotes are closed and a comma follows, that comma is outside quotes and ends the
  field: the stretch without its quote characters, trimmed, is appended, and the scan goes
  on with an empty buffer. At the end of the line the stretch, trimmed, is appended as
  the last field, also when it is empty (the empty line gives one empty field). The commas
  inside quotes stay in the field. The line \<^verbatim>\<open>a,"b,c",d\<close> gives the three fields \<^verbatim>\<open>a\<close>,
  \<^verbatim>\<open>b,c\<close> and \<^verbatim>\<open>d\<close>.
\<close>

theorem parseCSVLine_fields:
  "(commasInQuotes False seg \<and> even (length (filter (\<lambda>c. c = dquote) seg)) \<longrightarrow>
      parseCSVLine (seg @ comma # rest)
        = trim (filter (\<lambda>c. c \<noteq> dquote) seg) # parseCSVLine rest)
   \<and> (commasInQuotes False seg \<longrightarrow>
      parseCSVLine seg = [trim (filter (\<lambda>c. c \<noteq> dquote) seg)])
   \<and> parseCSVLine [] = [[]]
   \<and> parseCSVLine (''a,'' @ dquote # ''b,c'' @ dquote # '',d'') = [''a'', ''b,c'', ''d'']"
proof -
  have "parseCSVLine [] = [[]]"
    by (simp add: parseCSVLine_def trim_def)
  moreover have "parseCSVLine (''a,'' @ dquote # ''b,c'' @ dquote # '',d'') = [''a'', ''b,c'', ''d'']"
    by (simp add: parseCSVLine_def dquote_def comma_def trim_def isWhiteSpace_def)
  ultimately show ?thesis
    using field_then_comma field_at_end by blast
qed

theorem parseCSVLine_fields_witness:
  "parseCSVLine ('' x ,'' @ dquote # ''y,z'' @ dquote # '' '') = [''x'', ''y,z'']"
proof -
  have 1: "commasInQuotes False '' x '' \<and> even (length (filter (\<lambda>c. c = dquote) '' x ''))"
    by (simp add: dquote_def comma_def)
  have 2: "commasInQuotes False (dquote # ''y,z'' @ dquote # '' '')"
    by (simp add: dquote_def comma_def)
  have "parseCSVLine ('' x '' @ comma # dquote # ''y,z'' @ dquote # '' '')
      = trim (filter (\<lambda>c. c \<noteq> dquote) '' x '')
          # parseCSVLine (dquote # ''y,z'' @ dquote # '' '')"
    using parseCSVLine_fields [of "'' x ''" "dquote # ''y,z'' @ dquote # '' ''"] 1
    by blast
  moreover have "parseCSVLine (dquote # ''y,z'' @ dquote # '' '')
      = [trim (filter (\<lambda>c. c \<noteq> dquote) (dquote # ''y,z'' @ dquote # '' ''))]"
    using parseCSVLine_fields [of "dquote # ''y,z'' @ dquote # '' ''"] 2 by blast
  moreover have "trim (filter (\<lambda>c. c \<noteq> dquote) '' x '') = ''x''"
    "trim (filter (\<lambda>c. c \<noteq> dquote) (dquote # ''y,z'' @ dquote # '' '')) = ''y,z''"
    by (simp_all add: trim_def isWhiteSpace_def dquote_def)
  ultimately show ?thesis by (simp add: comma_def)
qed

section \<open>Properties of the row normalizer\<close>

lemma length_split_from:
  "length (split_from sep piece s) = 1 + length (filter (\<lambda>c. c = sep) s)"
  by (induction s arbitrary: piece) auto

lemma split_single_line: "(length (split sep s) < 2) = (sep \<notin> set s)"
proof -
  have "(length (filter (\<lambda>c. c = sep) s) = 0) = (sep \<notin> set s)"
    by (auto simp: filter_empty_conv)
  then show ?thesis
    unfolding split_def length_split_from by linarith
qed

lemma rowsLoop_data:
  "data (rowsLoop newDate ls st) = data st @ survivors newDate ls"
  by (induction ls arbitrary: st) (auto simp: survivors_def split: row_result.splits)

lemma rowsLoop_validRows:
  "validRows (rowsLoop newDate ls st) = validRows st + length (survivors newDate ls)"
  by (induction ls arbitrary: st) (auto simp: survivors_def split: row_result.splits)

text \<open>
  C3. \<^verbatim>\<open>parseCSVData\<close> fails with the empty-source error when the text has fewer than two
  lines, that is, when it holds no line feed; it fails with the no-valid-rows error when no
  line after the header survives validation; otherwise it returns the surviving rows in
  the order of their lines.
\<close>

theorem parseCSVData_result:
  "parseCSVData newDate csvText =
     (if length (split newline csvText) < 2 then Inl EmptySourceError
      else if survivors newDate (tl (split newline csvText)) = [] then Inl NoValidRowsError
      else Inr (survivors newDate (tl (split newline csvText))))
   \<and> (length (split newline csvText) < 2) = (newline \<notin> set csvText)"
  using split_single_line [of newline csvText]
  by (simp add: parseCSVData_def Let_def rowsLoop_data rowsLoop_validRows drop_Suc)

theorem parseCSVData_result_witness:
  "parseCSVData isoDateUTC ''Country,Year,Month,Calendar Day,Products,Metro Cities,RSP''
     = Inl EmptySourceError
   \<and> parseCSVData isoDateUTC (''Country,Year,Month,Calendar Day,Products,Metro Cities,RSP''
        @ newline # ''India,2023,1,2023-01-15,LPG,Mumbai,96.72'') = Inl NoValidRowsError
   \<and> parseCSVData isoDateUTC (''Country,Year,Month,Calendar Day,Products,Metro Cities,RSP''
        @ newline # ''India,2023,1,2023-01-15,Petrol,Mumbai,96.72'') =
       Inr [\<lparr>city = ''Mumbai'', fuelType = ''petrol'', year = 2023, month = 1,
              rsp = Fin (2418 / 25)\<rparr>]"
proof -
  have s2: "survivors isoDateUTC (tl (split newline
       (''Country,Year,Month,Calendar Day,Products,Metro Cities,RSP''
        @ newline # ''India,2023,1,2023-01-15,LPG,Mumbai,96.72''))) = []"
    by code_simp
  have s3: "survivors isoDateUTC (tl (split newline
       (''Country,Year,Month,Calendar Day,Products,Metro Cities,RSP''
        @ newline # ''India,2023,1,2023-01-15,Petrol,Mumbai,96.72''))) =
       [\<lparr>city = ''Mumbai'', fuelType = ''petrol'', year = 2023, month = 1,
              rsp = Fin (2418 / 25)\<rparr>]"
    by code_simp
  have s0: "(length (split newline
       ''Country,Year,Month,Calendar Day,Products,Metro Cities,RSP'') < 2) = True"
    "(length (split newline (''Country,Year,Month,Calendar Day,Products,Metro Cities,RSP''
        @ newline # ''India,2023,1,2023-01-15,LPG,Mumbai,96.72'')) < 2) = False"
    "(length (split newline (''Country,Year,Month,Calendar Day,Products,Metro Cities,RSP''
        @ newline # ''India,2023,1,2023-01-15,Petrol,Mumbai,96.72'')) < 2) = False"
    by code_simp+
  show ?thesis
    using parseCSVData_result [of isoDateUTC
        "''Country,Year,Month,Calendar Day,Products,Metro Cities,RSP''"]
      parseCSVData_result [of isoDateUTC
        "''Country,Year,Month,Calendar Day,Products,Metro Cities,RSP''
          @ newline # ''India,2023,1,2023-01-15,LPG,Mumbai,96.72''"]
      parseCSVData_result [of isoDateUTC
        "''Country,Year,Month,Calendar Day,Products,Metro Cities,RSP''
          @ newline # ''India,2023,1,2023-01-15,Petrol,Mumbai,96.72''"]
    unfolding s0 s2 s3 by simp
qed

lemma getMonth_range: "0 \<le> getMonth m \<and> getMonth m \<le> 11"
  by (cases m) simp_all

lemma round2_Fin: "round2 (Fin r) = Fin (of_int \<lfloor>r * 100 + 1 / 2\<rfloor> / 100)"
  by (simp add: round2_def)

lemma round2_PosInf: "round2 PosInf = PosInf"
  by (simp add: round2_def scaled_inf_def)

lemma price_cases:
  "\<not> isNaN price \<Longrightarrow> \<not> num_less price (Fin 0) \<Longrightarrow> price = PosInf \<or> (\<exists>r\<ge>0. price = Fin r)"
  by (cases price) (auto simp: isNaN_def)

lemma round2_price:
  assumes "\<not> isNaN price" "\<not> num_less price (Fin 0)"
  shows "round2 price = PosInf \<or> (\<exists>k\<ge>0. round2 price = Fin (of_int k / 100))"
proof -
  from price_cases[OF assms] show ?thesis
  proof
    assume "price = PosInf" then show ?thesis by (simp add: round2_PosInf)
  next
    assume "\<exists>r\<ge>0. price = Fin r"
    then obtain r where r: "0 \<le> r" "price = Fin r" by blast
    have "0 \<le> \<lfloor>r * 100 + 1 / 2\<rfloor>" using r(1) by simp
    then show ?thesis unfolding r(2) round2_Fin by blast
  qed
qed

lemma processRow_Pushed_iff:
  "(processRow newDate rawLine = Pushed p) =
   (\<exists>y m. 7 \<le> length (parseCSVLine (trim rawLine))
      \<and> trim (parseCSVLine (trim rawLine) ! 5) \<noteq> []
      \<and> trim (parseCSVLine (trim rawLine) ! 6) \<noteq> []
      \<and> trim (parseCSVLine (trim rawLine) ! 3) \<noteq> []
      \<and> (toLowerCase (trim (parseCSVLine (trim rawLine) ! 4)) = ''petrol''
          \<or> toLowerCase (trim (parseCSVLine (trim rawLine) ! 4)) = ''diesel'')
      \<and> newDate (trim (parseCSVLine (trim rawLine) ! 3)) = Valid_Date y m
      \<and> 2017 \<le> y \<and> y \<le> 2025
      \<and> \<not> isNaN (priceOf (trim (parseCSVLine (trim rawLine) ! 6)))
      \<and> \<not> num_less (priceOf (trim (parseCSVLine (trim rawLine) ! 6))) (Fin 0)
      \<and> p = \<lparr>city = trim (parseCSVLine (trim rawLine) ! 5),
              fuelType = toLowerCase (trim (parseCSVLine (trim rawLine) ! 4)),
              year = y, month = getMonth m + 1,
              rsp = round2 (priceOf (trim (parseCSVLine (trim rawLine) ! 6)))\<rparr>)"
proof (cases "newDate (trim (parseCSVLine (trim rawLine) ! 3))")
  case Invalid_Date
  then show ?thesis by (simp add: processRow_def Let_def)
next
  case (Valid_Date y m)
  have ne: "parseCSVLine [] = [[]]" by (simp add: parseCSVLine_def trim_def)
  show ?thesis
  proof (cases "trim rawLine = []")
    case True
    then show ?thesis by (simp add: processRow_def Let_def ne)
  next
    case False
    then show ?thesis using Valid_Date
      by (simp add: processRow_def Let_def priceOf_def not_less eq_commute[of p] cong: conj_cong)
  qed
qed

lemma processRow_Pushed:
  assumes "processRow newDate rawLine = Pushed p"
  shows "city p \<noteq> [] \<and> (fuelType p = ''petrol'' \<or> fuelType p = ''diesel'')
       \<and> 2017 \<le> year p \<and> year p \<le> 2025 \<and> 1 \<le> month p \<and> month p \<le> 12
       \<and> (rsp p = PosInf \<or> (\<exists>k\<ge>0. rsp p = Fin (of_int k / 100)))"
proof -
  from assms obtain y m where
    c: "trim (parseCSVLine (trim rawLine) ! 5) \<noteq> []"
    and f: "toLowerCase (trim (parseCSVLine (trim rawLine) ! 4)) = ''petrol''
          \<or> toLowerCase (trim (parseCSVLine (trim rawLine) ! 4)) = ''diesel''"
    and y: "2017 \<le> y" "y \<le> 2025"
    and n: "\<not> isNaN (priceOf (trim (parseCSVLine (trim rawLine) ! 6)))"
           "\<not> num_less (priceOf (trim (parseCSVLine (trim rawLine) ! 6))) (Fin 0)"
    and p: "p = \<lparr>city = trim (parseCSVLine (trim rawLine) ! 5),
              fuelType = toLowerCase (trim (parseCSVLine (trim rawLine) ! 4)),
              year = y, month = getMonth m + 1,
              rsp = round2 (priceOf (trim (parseCSVLine (trim rawLine) ! 6)))\<rparr>"
    unfolding processRow_Pushed_iff by blast
  have m: "1 \<le> getMonth m + 1 \<and> getMonth m + 1 \<le> 12"
    using getMonth_range[of m] by linarith
  show ?thesis
    unfolding p using c f y m round2_price[OF n] by simp
qed


text \<open>
  C8. A row whose date gives a year below 2017 or above 2025, so 2016 or 2026, is
  dropped: no record is pushed for it. A row whose date gives a year from 2017 to 2025, so
  2017 or 2025, and whose other fields are valid (seven columns, a date string, a city, a
  product that is petrol or diesel in any case, a price field that is not empty and whose
  price is a number not below zero) is pushed, with that year.
\<close>

theorem processRow_year_range:
  assumes "columns = parseCSVLine (trim rawLine)"
    and "newDate (trim (columns ! 3)) = Valid_Date y m"
  shows "(y < 2017 \<or> 2025 < y \<longrightarrow> (\<forall>p. processRow newDate rawLine \<noteq> Pushed p))
       \<and> (2017 \<le> y \<and> y \<le> 2025 \<and> 7 \<le> length columns
            \<and> trim (columns ! 3) \<noteq> [] \<and> trim (columns ! 5) \<noteq> []
            \<and> (toLowerCase (trim (columns ! 4)) = ''petrol''
                \<or> toLowerCase (trim (columns ! 4)) = ''diesel'')
            \<and> trim (columns ! 6) \<noteq> []
            \<and> \<not> isNaN (priceOf (trim (columns ! 6)))
            \<and> \<not> num_less (priceOf (trim (columns ! 6))) (Fin 0)
          \<longrightarrow> processRow newDate rawLine =
                Pushed \<lparr>city = trim (columns ! 5), fuelType = toLowerCase (trim (columns ! 4)),
                        year = y, month = getMonth m + 1,
                        rsp = round2 (priceOf (trim (columns ! 6)))\<rparr>)"
  using assms(2) unfolding processRow_Pushed_iff assms(1) by auto


theorem processRow_year_range_witness:
  "(\<forall>p. processRow isoDateUTC ''India,2016,12,2016-12-31,Petrol,Delhi,70.5'' \<noteq> Pushed p)
   \<and> processRow isoDateUTC ''India,2017,1,2017-01-01,Petrol,Delhi,70.5'' =
       Pushed \<lparr>city = ''Delhi'', fuelType = ''petrol'', year = 2017, month = 1,
               rsp = Fin (141 / 2)\<rparr>"
proof -
  have c1: "parseCSVLine (trim ''India,2016,12,2016-12-31,Petrol,Delhi,70.5'')
      = [''India'', ''2016'', ''12'', ''2016-12-31'', ''Petrol'', ''Delhi'', ''70.5'']"
    by code_simp
  have d1: "isoDateUTC (trim ''2016-12-31'') = Valid_Date 2016 December"
    by code_simp
  have a: "\<forall>p. processRow isoDateUTC ''India,2016,12,2016-12-31,Petrol,Delhi,70.5'' \<noteq> Pushed p"
    using processRow_year_range [OF c1 [symmetric], of isoDateUTC 2016 December] d1 by simp
  have c2: "parseCSVLine (trim ''India,2017,1,2017-01-01,Petrol,Delhi,70.5'')
      = [''India'', ''2017'', ''1'', ''2017-01-01'', ''Petrol'', ''Delhi'', ''70.5'']"
    by code_simp
  have d2: "isoDateUTC (trim ''2017-01-01'') = Valid_Date 2017 January"
    by code_simp
  have t: "trim ''2017-01-01'' = ''2017-01-01''" "trim ''Delhi'' = ''Delhi''"
    "toLowerCase (trim ''Petrol'') = ''petrol''" "trim ''70.5'' = ''70.5''"
    "priceOf ''70.5'' = Fin (141 / 2)" "round2 (Fin (141 / 2)) = Fin (141 / 2)"
    by code_simp+
  have b: "processRow isoDateUTC ''India,2017,1,2017-01-01,Petrol,Delhi,70.5'' =
       Pushed \<lparr>city = ''Delhi'', fuelType = ''petrol'', year = 2017, month = 1,
               rsp = Fin (141 / 2)\<rparr>"
    using processRow_year_range [OF c2 [symmetric], of isoDateUTC 2017 January] d2
    by (simp add: t isNaN_def)
  from a b show ?thesis by blast
qed

text \<open>
  What does hold of every record returned, for every text and every engine: the city,
  the fuel type, the year and the month are valid, and the price is a non-negative
  multiple of one hundredth or positive infinity.
\<close>

lemma parseCSVData_rows_valid:
  assumes "parseCSVData newDate csvText = Inr rows" and "p \<in> set rows"
  shows "city p \<noteq> [] \<and> (fuelType p = ''petrol'' \<or> fuelType p = ''diesel'')
       \<and> 2017 \<le> year p \<and> year p \<le> 2025 \<and> 1 \<le> month p \<and> month p \<le> 12
       \<and> (rsp p = PosInf \<or> (\<exists>k\<ge>0. rsp p = Fin (of_int k / 100)))"
proof -
  from assms(1) have "rows = survivors newDate (tl (split newline csvText))"
    by (simp add: parseCSVData_def Let_def rowsLoop_data drop_Suc split: if_splits)
  with assms(2) obtain l where "processRow newDate l = Pushed p"
    by (auto simp: survivors_def split: row_result.splits)
  then show ?thesis by (rule processRow_Pushed)
qed

text \<open>
  C1 fails on the code. With the price field \<^verbatim>\<open>Infinity\<close> and the other fields valid,
  \<^verbatim>\<open>parseFloat\<close> gives positive infinity, which is neither NaN nor below zero, so the row
  is pushed and its price is infinite: not a number rounded to two decimal places.
\<close>

theorem infinite_price_row_kept:
  "parseCSVData isoDateUTC (''Country,Year,Month,Calendar Day,Products,Metro Cities,RSP''
        @ newline # ''India,2023,1,2023-01-15,Petrol,Mumbai,Infinity'') =
       Inr [\<lparr>city = ''Mumbai'', fuelType = ''petrol'', year = 2023, month = 1, rsp = PosInf\<rparr>]"
  by code_simp

text \<open>
  The part of C2 that holds: a row whose price field is \<^verbatim>\<open>NA\<close> or \<^verbatim>\<open>N/A\<close> and whose
  other fields are valid is pushed with price zero. A row whose price field is empty is
  never pushed.
\<close>

lemma placeholder_price_kept:
  assumes "columns = parseCSVLine (trim rawLine)" and "7 \<le> length columns"
    and "trim (columns ! 6) = ''NA'' \<or> trim (columns ! 6) = ''N/A''"
    and "trim (columns ! 3) \<noteq> []" and "trim (columns ! 5) \<noteq> []"
    and "toLowerCase (trim (columns ! 4)) = ''petrol''
         \<or> toLowerCase (trim (columns ! 4)) = ''diesel''"
    and "newDate (trim (columns ! 3)) = Valid_Date y m" and "2017 \<le> y" and "y \<le> 2025"
  shows "processRow newDate rawLine =
           Pushed \<lparr>city = trim (columns ! 5), fuelType = toLowerCase (trim (columns ! 4)),
                   year = y, month = getMonth m + 1, rsp = Fin 0\<rparr>"
proof -
  have p: "priceOf (trim (columns ! 6)) = Fin 0"
    using assms(3) by (auto simp: priceOf_def)
  have r: "round2 (Fin 0) = Fin 0" by code_simp
  have n: "trim (columns ! 6) \<noteq> []" using assms(3) by auto
  show ?thesis
    unfolding processRow_Pushed_iff assms(1)[symmetric] p r
    using assms(2,4-9) n by (simp add: isNaN_def)
qed

lemma empty_price_dropped:
  "trim (parseCSVLine (trim rawLine) ! 6) = [] \<Longrightarrow> processRow newDate rawLine \<noteq> Pushed p"
  unfolding processRow_Pushed_iff by simp

text \<open>
  C2 fails on the code for the empty price field. The row below has seven columns, a
  valid date, product and city, and nothing after the last comma: the check for missing
  fields skips it before the price expression can give zero, no row is left and the
  parse fails. The same row with \<^verbatim>\<open>NA\<close> as price is returned with price zero.
\<close>

theorem empty_price_row_dropped:
  "parseCSVData isoDateUTC (''Country,Year,Month,Calendar Day,Products,Metro Cities,RSP''
        @ newline # ''India,2023,1,2023-01-15,Petrol,Mumbai,'') = Inl NoValidRowsError
   \<and> parseCSVData isoDateUTC (''Country,Year,Month,Calendar Day,Products,Metro Cities,RSP''
        @ newline # ''India,2023,1,2023-01-15,Petrol,Mumbai,NA'') =
       Inr [\<lparr>city = ''Mumbai'', fuelType = ''petrol'', year = 2023, month = 1, rsp = Fin 0\<rparr>]"
  by code_simp

section \<open>Properties of binary64 rounding\<close>

text \<open>
  The bit length, the exponent and the rounding to an integer do what their names say.
\<close>

lemma bitLength_bounds:
  "0 < n \<Longrightarrow> 1 \<le> bitLength n \<and> 2 ^ nat (bitLength n - 1) \<le> n \<and> n < 2 ^ nat (bitLength n)"
proof (induction n rule: bitLength.induct)
  case (1 n)
  show ?case
  proof (cases "n div 2 = 0")
    case True
    with "1.prems" have n: "n = 1" by linarith
    have "bitLength 1 = 1" by (simp add: bitLength.simps)
    then show ?thesis unfolding n by simp
  next
    case False
    with "1.prems" have h: "0 < n div 2" by linarith
    define k where "k = bitLength (n div 2)"
    from "1.IH"[OF _ h] "1.prems"
    have ih: "1 \<le> k" "2 ^ nat (k - 1) \<le> n div 2" "n div 2 < 2 ^ nat k"
      unfolding k_def by simp_all
    have b: "bitLength n = k + 1"
      using "1.prems" unfolding k_def by (subst bitLength.simps) simp
    have p: "(2::int) ^ nat k = 2 * 2 ^ nat (k - 1)"
      using ih(1) by (metis Suc_nat_eq_nat_zadd1 add.commute diff_add_cancel diff_ge_0_iff_ge power_Suc)
    have q: "(2::int) ^ nat (k + 1) = 2 * 2 ^ nat k"
      using ih(1) by (simp add: nat_add_distrib)
    have "2 ^ nat k \<le> n" using ih(2) p by linarith
    moreover have "n < 2 ^ nat (k + 1)" using ih(3) q by linarith
    ultimately show ?thesis unfolding b using ih(1) by simp
  qed
qed

lemma pow2_powi: "pow2 e = 2 powi e"
  by (simp add: pow2_def power_int_def inverse_eq_divide power_divide)

lemma pow2_pos: "0 < pow2 e"
  by (simp add: pow2_powi)

lemma pow2_add: "pow2 (a + b) = pow2 a * pow2 b"
  by (simp add: pow2_powi power_int_add)

lemma pow2_mono: "a \<le> b \<Longrightarrow> pow2 a \<le> pow2 b"
  by (simp add: pow2_powi power_int_increasing)

lemma pow2_nat: "0 \<le> e \<Longrightarrow> pow2 e = 2 ^ nat e"
  by (simp add: pow2_def)


lemma exponentOf_bounds:
  assumes "0 < a"
  shows "pow2 (exponentOf a) \<le> a \<and> a < pow2 (exponentOf a + 1)"
proof -
  define p where "p = fst (quotient_of a)"
  define q where "q = snd (quotient_of a)"
  have q: "0 < q" unfolding q_def by (rule quotient_of_denom_pos')
  have a: "a = of_int p / of_int q"
    unfolding p_def q_def by (intro quotient_of_div) simp
  have p: "0 < p"
    using assms q unfolding a by (simp add: zero_less_divide_iff)
  define bp where "bp = bitLength p"
  define bq where "bq = bitLength q"
  define d where "d = bp - bq"
  from bitLength_bounds[OF p] have bp: "1 \<le> bp" "2 ^ nat (bp - 1) \<le> p" "p < 2 ^ nat bp"
    unfolding bp_def by simp_all
  from bitLength_bounds[OF q] have bq: "1 \<le> bq" "2 ^ nat (bq - 1) \<le> q" "q < 2 ^ nat bq"
    unfolding bq_def by simp_all
  have rp: "pow2 (bp - 1) \<le> of_int p" "of_int p < pow2 bp"
  proof -
    have "rat_of_int (2 ^ nat (bp - 1)) \<le> of_int p" using bp(2) by (simp only: of_int_le_iff)
    then show "pow2 (bp - 1) \<le> of_int p" using bp(1) by (simp add: pow2_nat)
    have "rat_of_int p < of_int (2 ^ nat bp)" using bp(3) by (simp only: of_int_less_iff)
    then show "of_int p < pow2 bp" using bp(1) by (simp add: pow2_nat)
  qed
  have rq: "pow2 (bq - 1) \<le> of_int q" "of_int q < pow2 bq"
  proof -
    have "rat_of_int (2 ^ nat (bq - 1)) \<le> of_int q" using bq(2) by (simp only: of_int_le_iff)
    then show "pow2 (bq - 1) \<le> of_int q" using bq(1) by (simp add: pow2_nat)
    have "rat_of_int q < of_int (2 ^ nat bq)" using bq(3) by (simp only: of_int_less_iff)
    then show "of_int q < pow2 bq" using bq(1) by (simp add: pow2_nat)
  qed
  have qpos: "0 < rat_of_int q" using q by simp
  have upper: "a < pow2 (d + 1)"
  proof -
    have "of_int p < pow2 (d + 1) * pow2 (bq - 1)"
      using rp(2) unfolding d_def pow2_add[symmetric] by simp
    also have "\<dots> \<le> pow2 (d + 1) * of_int q"
      using rq(1) pow2_pos[of "d + 1"] by (simp add: mult_left_mono)
    finally show ?thesis unfolding a using qpos by (simp add: pos_divide_less_eq)
  qed
  have lower: "pow2 (d - 1) \<le> a"
  proof -
    have "pow2 (d - 1) * of_int q \<le> pow2 (d - 1) * pow2 bq"
      using rq(2) pow2_pos[of "d - 1"] by (simp add: mult_left_mono)
    also have "\<dots> = pow2 (bp - 1)"
      unfolding d_def pow2_add[symmetric] by simp
    also have "\<dots> \<le> of_int p" by (rule rp(1))
    finally show ?thesis unfolding a using qpos by (simp add: pos_le_divide_eq)
  qed
  have e: "exponentOf a = (if pow2 d \<le> a then d else d - 1)"
    unfolding exponentOf_def d_def bp_def bq_def p_def q_def Let_def ..
  show ?thesis
  proof (cases "pow2 d \<le> a")
    case True
    then show ?thesis unfolding e using upper by simp
  next
    case False
    then show ?thesis unfolding e using lower by simp
  qed
qed

lemma roundHalfEven_close: "\<bar>of_int (roundHalfEven q) - q\<bar> \<le> 1 / 2"
proof -
  have f: "of_int \<lfloor>q\<rfloor> \<le> q" "q < of_int \<lfloor>q\<rfloor> + 1" by linarith+
  show ?thesis
    unfolding roundHalfEven_def Let_def using f by (auto simp: abs_le_iff)
qed

lemma roundHalfEven_mono_bound:
  assumes "0 \<le> q" "q < of_int n"
  shows "0 \<le> roundHalfEven q \<and> roundHalfEven q \<le> n"
proof -
  have f: "0 \<le> \<lfloor>q\<rfloor>" "\<lfloor>q\<rfloor> < n" using assms by (simp_all add: floor_less_iff)
  show ?thesis
    unfolding roundHalfEven_def Let_def using f by auto
qed


lemma nearest_Fin:
  assumes "nearest x = Fin v" and "x \<noteq> 0"
  obtains m e where "e = max (exponentOf \<bar>x\<bar> - 52) (- 1074)"
    and "m = roundHalfEven (\<bar>x\<bar> / pow2 e)"
    and "e \<le> 971" and "e = 971 \<longrightarrow> m < 2 ^ 53"
    and "v = (if x < 0 then - 1 else 1) * of_int m * pow2 e"
proof -
  define e where "e = max (exponentOf \<bar>x\<bar> - 52) (- 1074)"
  define m where "m = roundHalfEven (\<bar>x\<bar> / pow2 e)"
  have n: "nearest x =
      (if 971 < e \<or> (e = 971 \<and> 2 ^ 53 \<le> m) then (if x < 0 then NegInf else PosInf)
       else Fin ((if x < 0 then - 1 else 1) * of_int m * pow2 e))"
    using assms(2) unfolding nearest_def e_def m_def Let_def by simp
  have o: "\<not> (971 < e \<or> (e = 971 \<and> 2 ^ 53 \<le> m))"
    using assms(1) unfolding n by (auto split: if_splits)
  have "Fin v = Fin ((if x < 0 then - 1 else 1) * of_int m * pow2 e)"
    using assms(1) unfolding n if_not_P[OF o] by (rule sym)
  then have "v = (if x < 0 then - 1 else 1) * of_int m * pow2 e"
    by (simp only: number.inject)
  moreover have "e \<le> 971" "e = 971 \<longrightarrow> m < 2 ^ 53" using o by auto
  ultimately show ?thesis using that e_def m_def by blast
qed

text \<open>The value that \<open>nearest\<close> returns is a binary64 value.\<close>

lemma nearest_binary64:
  assumes "nearest x = Fin v"
  shows "\<exists>m e. \<bar>m\<bar> < 2 ^ 53 \<and> - 1074 \<le> e \<and> e \<le> 971 \<and> v = of_int m * pow2 e"
proof (cases "x = 0")
  case True
  with assms have "v = of_int 0 * pow2 0" by (simp add: nearest_def)
  then show ?thesis by (intro exI[of _ 0] exI[of _ "0::int"]) simp
next
  case False
  from nearest_Fin[OF assms False] obtain m e where
    e: "e = max (exponentOf \<bar>x\<bar> - 52) (- 1074)"
    and m: "m = roundHalfEven (\<bar>x\<bar> / pow2 e)"
    and o: "e \<le> 971" "e = 971 \<longrightarrow> m < 2 ^ 53"
    and v: "v = (if x < 0 then - 1 else 1) * of_int m * pow2 e"
    by blast
  have a: "0 < \<bar>x\<bar>" using False by simp
  have "\<bar>x\<bar> < pow2 (exponentOf \<bar>x\<bar> + 1)" using exponentOf_bounds[OF a] by simp
  also have "\<dots> \<le> pow2 (e + 53)" unfolding e by (intro pow2_mono) simp
  also have "\<dots> = pow2 e * 2 ^ 53" by (simp add: pow2_add pow2_nat)
  finally have "\<bar>x\<bar> / pow2 e < of_int (2 ^ 53)"
    using pow2_pos[of e] by (simp add: pos_divide_less_eq mult.commute)
  moreover have "0 \<le> \<bar>x\<bar> / pow2 e" using pow2_pos[of e] by simp
  ultimately have mb: "0 \<le> m" "m \<le> 2 ^ 53"
    unfolding m using roundHalfEven_mono_bound by blast+
  define s :: int where "s = (if x < 0 then - 1 else 1)"
  have vs: "v = of_int (s * m) * pow2 e" unfolding v s_def by simp
  have el: "- 1074 \<le> e" unfolding e by simp
  show ?thesis
  proof (cases "m = 2 ^ 53")
    case True
    with o have e970: "e + 1 \<le> 971" by auto
    have "v = of_int (s * 2 ^ 52) * pow2 (e + 1)"
      unfolding vs True by (simp add: pow2_add pow2_nat)
    moreover have "\<bar>s * 2 ^ 52\<bar> < (2::int) ^ 53" unfolding s_def by simp
    ultimately show ?thesis using e970 el
      by (intro exI[of _ "s * 2 ^ 52"] exI[of _ "e + 1"]) simp
  next
    case False
    with mb have "\<bar>s * m\<bar> < 2 ^ 53" unfolding s_def by (simp add: abs_mult)
    with vs o(1) el show ?thesis
      by (intro exI[of _ "s * m"] exI[of _ e]) simp
  qed
qed

text \<open>It is within half a unit of the last binary digit kept.\<close>

lemma nearest_close:
  assumes "nearest x = Fin v"
  shows "\<bar>v - x\<bar> \<le> pow2 (max (exponentOf \<bar>x\<bar> - 52) (- 1074)) / 2"
proof (cases "x = 0")
  case True
  with assms have "v = 0" by (simp add: nearest_def)
  then show ?thesis using True pow2_pos[of "max (exponentOf \<bar>x\<bar> - 52) (- 1074)"] by simp
next
  case False
  from nearest_Fin[OF assms False] obtain m e where
    e: "e = max (exponentOf \<bar>x\<bar> - 52) (- 1074)"
    and m: "m = roundHalfEven (\<bar>x\<bar> / pow2 e)"
    and v: "v = (if x < 0 then - 1 else 1) * of_int m * pow2 e"
    by blast
  have pe: "0 < pow2 e" by (rule pow2_pos)
  have eq: "of_int m * pow2 e - \<bar>x\<bar> = (of_int m - \<bar>x\<bar> / pow2 e) * pow2 e"
    using pe by (simp add: left_diff_distrib)
  have "\<bar>v - x\<bar> = \<bar>of_int m * pow2 e - \<bar>x\<bar>\<bar>"
    unfolding v by (cases "x < 0") simp_all
  also have "\<dots> = \<bar>of_int m - \<bar>x\<bar> / pow2 e\<bar> * pow2 e"
    unfolding eq using pe by (simp add: abs_mult)
  also have "\<dots> \<le> (1 / 2) * pow2 e"
    unfolding m using roundHalfEven_close[of "\<bar>x\<bar> / pow2 e"] pe
    by (intro mult_right_mono) simp_all
  finally show ?thesis unfolding e by simp
qed

text \<open>The sum of the binary64 values of 0.1 and 0.2 is above the binary64 value of 0.3.\<close>

lemma f64_add_example:
  "f64_add (nearest (1 / 10)) (nearest (2 / 10)) = Fin (1351079888211149 / 4503599627370496)
   \<and> nearest (3 / 10) = Fin (5404319552844595 / 18014398509481984)"
  by code_simp

section \<open>Properties of the aggregator\<close>

lemma accumulate_length:
  "length (fst (accumulate d acc)) = length (fst acc)
   \<and> length (snd (accumulate d acc)) = length (snd acc)"
  by (simp add: accumulate_def Let_def)


lemma fold_accumulate_length:
  "length (fst (fold accumulate xs acc)) = length (fst acc)
   \<and> length (snd (fold accumulate xs acc)) = length (snd acc)"
  by (induction xs arbitrary: acc) (simp_all add: accumulate_length)









lemma body_length:
  "monthlyAveragesBody dataArg cityArg fuelArg yearArg = Inr series \<Longrightarrow> length series = 12"
  using fold_accumulate_length[of _ "(replicate 12 (Fin 0), replicate 12 0)"]
  by (auto simp: monthlyAveragesBody_def Let_def split: if_splits)

lemma getMonthlyAverages_length:
  "length (getMonthlyAverages dataArg cityArg fuelArg yearArg) = 12"
  by (cases "monthlyAveragesBody dataArg cityArg fuelArg yearArg")
     (simp_all add: getMonthlyAverages_def body_length)

lemma not_array_throws:
  "\<forall>ds. dataArg \<noteq> Arr ds \<Longrightarrow> \<exists>e. monthlyAveragesBody dataArg cityArg fuelArg yearArg = Inl e"
  by (cases dataArg) (simp_all add: monthlyAveragesBody_def)

lemma bad_city_throws:
  "\<forall>s. cityArg = Str s \<longrightarrow> s = [] \<Longrightarrow>
   \<exists>e. monthlyAveragesBody dataArg cityArg fuelArg yearArg = Inl e"
  by (cases cityArg) (simp_all add: monthlyAveragesBody_def)

lemma bad_fuel_throws:
  "fuelArg \<noteq> Str ''petrol'' \<and> fuelArg \<noteq> Str ''diesel'' \<Longrightarrow>
   \<exists>e. monthlyAveragesBody dataArg cityArg fuelArg yearArg = Inl e"
  by (simp add: monthlyAveragesBody_def)

lemma year_accepted:
  assumes "isInteger yearArg" "\<not> num_less (numberOf yearArg) (Fin 2017)"
    "\<not> num_less (Fin 2025) (numberOf yearArg)"
  shows "\<exists>k. yearArg = Num (Fin (of_int k)) \<and> 2017 \<le> k \<and> k \<le> 2025"
proof -
  from assms(1) obtain r where r: "yearArg = Num (Fin r)" "r = of_int \<lfloor>r\<rfloor>"
    by (cases yearArg rule: isInteger.cases) simp_all
  from assms(2,3) have "2017 \<le> r" "r \<le> 2025" unfolding r(1) by simp_all
  then have "2017 \<le> \<lfloor>r\<rfloor>" "\<lfloor>r\<rfloor> \<le> 2025" by linarith+
  with r show ?thesis by metis
qed

lemma bad_year_throws:
  assumes "\<forall>k. yearArg = Num (Fin (of_int k)) \<longrightarrow> k < 2017 \<or> 2025 < k"
  shows "\<exists>e. monthlyAveragesBody dataArg cityArg fuelArg yearArg = Inl e"
proof -
  have "\<not> isInteger yearArg \<or> num_less (numberOf yearArg) (Fin 2017)
      \<or> num_less (Fin 2025) (numberOf yearArg)"
    using year_accepted[of yearArg] assms by fastforce
  then show ?thesis by (auto simp: monthlyAveragesBody_def)
qed

lemma throw_gives_zeros:
  "\<exists>e. monthlyAveragesBody dataArg cityArg fuelArg yearArg = Inl e \<Longrightarrow>
   getMonthlyAverages dataArg cityArg fuelArg yearArg = replicate 12 (Fin 0)"
  by (auto simp: getMonthlyAverages_def)

text \<open>
  C4. \<^verbatim>\<open>getMonthlyAverages\<close> returns a series of twelve values for all arguments, of any
  type. When the data is not an array, the city is not a non-empty string, the fuel type
  is neither of the two strings, or the year is not an integer from 2017 to 2025 (a value
  that is no number, a fraction, or a year out of range), the error thrown inside is
  caught and the series is twelve zeros; so it is for the empty city.
\<close>

theorem getMonthlyAverages_never_raises:
  "length (getMonthlyAverages dataArg cityArg fuelArg yearArg) = 12
   \<and> ((\<forall>ds. dataArg \<noteq> Arr ds) \<or> (\<forall>s. cityArg = Str s \<longrightarrow> s = [])
        \<or> (fuelArg \<noteq> Str ''petrol'' \<and> fuelArg \<noteq> Str ''diesel'')
        \<or> (\<forall>k. yearArg = Num (Fin (of_int k)) \<longrightarrow> k < 2017 \<or> 2025 < k)
      \<longrightarrow> getMonthlyAverages dataArg cityArg fuelArg yearArg = replicate 12 (Fin 0))
   \<and> getMonthlyAverages dataArg (Str []) fuelArg yearArg = replicate 12 (Fin 0)"
proof -
  have "getMonthlyAverages dataArg (Str []) fuelArg yearArg = replicate 12 (Fin 0)"
    by (rule throw_gives_zeros, rule bad_city_throws) simp
  then show ?thesis
    using getMonthlyAverages_length not_array_throws bad_city_throws bad_fuel_throws
      bad_year_throws throw_gives_zeros
    by meson
qed

theorem getMonthlyAverages_never_raises_witness:
  "getMonthlyAverages Undefined (Num (Fin 7)) (Str ''lpg'') (Num (Fin (4047 / 2)))
     = replicate 12 (Fin 0)
   \<and> getMonthlyAverages (Arr []) (Str ''Mumbai'') (Str ''petrol'') (Num (Fin 2030))
     = replicate 12 (Fin 0)"
proof -
  have a: "\<forall>s. Num (Fin 7) = Str s \<longrightarrow> s = []" by simp
  have "\<forall>k. Num (Fin 2030) = Num (Fin (rat_of_int k)) \<longrightarrow> k < 2017 \<or> 2025 < k"
  proof (intro allI impI)
    fix k assume "Num (Fin 2030) = Num (Fin (rat_of_int k))"
    then have "rat_of_int k = 2030" by simp
    then have "k = 2030" by linarith
    then show "k < 2017 \<or> 2025 < k" by simp
  qed
  then show ?thesis
    using getMonthlyAverages_never_raises
            [of Undefined "Num (Fin 7)" "Str ''lpg''" "Num (Fin (4047 / 2))"]
          getMonthlyAverages_never_raises
            [of "Arr []" "Str ''Mumbai''" "Str ''petrol''" "Num (Fin 2030)"] a
    by blast
qed

section \<open>Properties of the fallback generator\<close>

lemma fold_product:
  "fold (\<lambda>x. fold (\<lambda>k. F (x, k)) ys) xs = fold F (List.product xs ys)"
proof (induction xs)
  case Nil
  then show ?case by simp
next
  case (Cons x xs)
  have "fold (\<lambda>k. F (x, k)) ys = fold F (map (Pair x) ys)"
    by (simp add: fold_map comp_def)
  with Cons show ?case by simp
qed

lemma generateSampleData_fold:
  "generateSampleData random =
     points (fold (pushSample random) crossProduct \<lparr>points = [], calls = 0\<rparr>)"
proof -
  have 1: "fold (\<lambda>y. fold (\<lambda>m. pushSample random (c, f, y, m)) [1..12]) availableYears
      = fold (\<lambda>k. pushSample random (c, f, k)) (List.product availableYears [1..12])" for c f
    by (rule fold_product)
  have 2: "fold (\<lambda>f. fold (\<lambda>k. pushSample random (c, f, k)) (List.product availableYears [1..12]))
             fuelTypes
      = fold (\<lambda>k. pushSample random (c, k))
          (List.product fuelTypes (List.product availableYears [1..12]))" for c
    by (rule fold_product)
  have 3: "fold (\<lambda>c. fold (\<lambda>k. pushSample random (c, k))
                    (List.product fuelTypes (List.product availableYears [1..12])))
             metroCities
      = fold (pushSample random) crossProduct"
    unfolding crossProduct_def by (rule fold_product)
  show ?thesis
    unfolding generateSampleData_def 1 2 3 ..
qed

lemma fold_pushSample_keys:
  "map keyOf (points (fold (pushSample random) ks st)) = map keyOf (points st) @ ks"
proof (induction ks arbitrary: st)
  case Nil
  then show ?case by simp
next
  case (Cons k ks)
  obtain c f y m where k: "k = (c, f, y, m)" by (cases k) auto
  have "map keyOf (points (pushSample random k st)) = map keyOf (points st) @ [k]"
    unfolding k by (simp add: pushSample_def keyOf_def samplePoint_def Let_def)
  with Cons.IH[of "pushSample random k st"] show ?case by simp
qed

lemma getCityMultiplier_Fin: "\<exists>q. getCityMultiplier c = Fin q"
proof (cases "map_of multipliers c")
  case None
  then show ?thesis by (simp add: getCityMultiplier_def)
next
  case (Some v)
  then have "(c, v) \<in> set multipliers" by (rule map_of_SomeD)
  then have "\<exists>q. v = Fin q" by (auto simp: multipliers_def)
  with Some show ?thesis by (auto simp: getCityMultiplier_def)
qed

lemma variations_Fin: "i < 12 \<Longrightarrow> \<exists>q. variations ! i = Fin q"
proof -
  have "\<forall>v \<in> set variations. \<exists>q. v = Fin q" by (simp add: variations_def)
  moreover assume "i < 12"
  then have "i < length variations" by (simp add: variations_def)
  then have "variations ! i \<in> set variations" by (rule nth_mem)
  ultimately show ?thesis by blast
qed

lemma getMonthVariation_Fin: "\<exists>q. getMonthVariation m = Fin q"
proof (cases "0 \<le> m - 1 \<and> nat (m - 1) < length variations
         \<and> truthy (Num (variations ! nat (m - 1)))")
  case True
  then have "nat (m - 1) < 12" by (simp add: variations_def)
  from variations_Fin[OF this] True show ?thesis by (simp add: getMonthVariation_def)
next
  case False
  then show ?thesis unfolding getMonthVariation_def if_not_P[OF False] by simp
qed

lemma Math_max_Fin: "Math_max (Fin 0) (Fin x) = Fin (max 0 x)"
  by (simp add: Math_max_def isNaN_def max_def)

lemma samplePoint_rsp: "\<exists>k\<ge>0. rsp (samplePoint c f y m r) = Fin (of_int k / 100)"
proof -
  obtain q where q: "getCityMultiplier c = Fin q" using getCityMultiplier_Fin by blast
  obtain v where v: "getMonthVariation m = Fin v" using getMonthVariation_Fin by blast
  have b: "(if f = ''petrol'' then Fin 80 else Fin 75) = Fin (if f = ''petrol'' then 80 else 75)"
    by simp
  have "rsp (samplePoint c f y m r) =
      round2 (Fin (max 0 ((if f = ''petrol'' then 80 else 75) * q
                            * (1 + (of_int y - 2021) * (5 / 100)) + v + (r - 5 / 10) * 10)))"
    unfolding samplePoint_def Let_def q v b
    by (simp add: num_sub_def Math_max_Fin)
  then obtain x where x: "rsp (samplePoint c f y m r) = round2 (Fin (max 0 x))" ..
  have "0 \<le> \<lfloor>max 0 x * 100 + 1 / 2\<rfloor>" by simp
  then show ?thesis unfolding x round2_Fin by blast
qed


lemma fold_pushSample_prices:
  "\<forall>p \<in> set (points st). \<exists>k\<ge>0. rsp p = Fin (of_int k / 100) \<Longrightarrow>
   \<forall>p \<in> set (points (fold (pushSample random) ks st)). \<exists>k\<ge>0. rsp p = Fin (of_int k / 100)"
proof (induction ks arbitrary: st)
  case Nil
  then show ?case by simp
next
  case (Cons k ks)
  obtain c f y m where k: "k = (c, f, y, m)" by (cases k) auto
  have "\<forall>p \<in> set (points (pushSample random k st)). \<exists>k\<ge>0. rsp p = Fin (of_int k / 100)"
    unfolding k using Cons.prems samplePoint_rsp by (simp add: pushSample_def)
  from Cons.IH[OF this] show ?case by simp
qed

lemma crossProduct_keys:
  "(c, f, y, m) \<in> set crossProduct \<Longrightarrow>
   c \<in> set metroCities \<and> f \<in> set fuelTypes \<and> y \<in> set availableYears \<and> 1 \<le> m \<and> m \<le> 12"
  by (simp add: crossProduct_def)

text \<open>
  C9. Whatever values \<^verbatim>\<open>Math.random\<close> returns, \<^verbatim>\<open>generateSampleData\<close> returns one record
  for each element of the cross product of the cities, the two fuel types, the nine years
  and the twelve months, in that order and none twice, so four times 2 times 9 times 12
  records; each record has a city of the list, a fuel type of the two, a year from 2017 to
  2025, a month from 1 to 12, and a price that is a non-negative multiple of one
  hundredth.
\<close>

theorem generateSampleData_shape:
  "map keyOf (generateSampleData random) = crossProduct
   \<and> distinct crossProduct
   \<and> length (generateSampleData random) = length metroCities * 2 * 9 * 12
   \<and> (\<forall>p \<in> set (generateSampleData random).
        city p \<noteq> [] \<and> city p \<in> set metroCities
        \<and> (fuelType p = ''petrol'' \<or> fuelType p = ''diesel'')
        \<and> 2017 \<le> year p \<and> year p \<le> 2025 \<and> 1 \<le> month p \<and> month p \<le> 12
        \<and> (\<exists>k\<ge>0. rsp p = Fin (of_int k / 100)))"
proof -
  have keys: "map keyOf (generateSampleData random) = crossProduct"
    unfolding generateSampleData_fold using fold_pushSample_keys[of random crossProduct] by simp
  have dist: "distinct crossProduct"
    unfolding crossProduct_def
    by (intro distinct_product) (simp_all add: metroCities_def fuelTypes_def availableYears_def)
  have "length (generateSampleData random) = length crossProduct"
    using arg_cong[OF keys, of length] by simp
  also have "\<dots> = length metroCities * 2 * 9 * 12"
    by (simp add: crossProduct_def fuelTypes_def availableYears_def)
  finally have len: "length (generateSampleData random) = length metroCities * 2 * 9 * 12" .
  have prices: "\<forall>p \<in> set (generateSampleData random). \<exists>k\<ge>0. rsp p = Fin (of_int k / 100)"
    unfolding generateSampleData_fold by (rule fold_pushSample_prices) simp
  have fields: "city p \<noteq> [] \<and> city p \<in> set metroCities
        \<and> (fuelType p = ''petrol'' \<or> fuelType p = ''diesel'')
        \<and> 2017 \<le> year p \<and> year p \<le> 2025 \<and> 1 \<le> month p \<and> month p \<le> 12"
    if "p \<in> set (generateSampleData random)" for p
  proof -
    from that have "keyOf p \<in> set (map keyOf (generateSampleData random))" by simp
    then have "(city p, fuelType p, year p, month p) \<in> set crossProduct"
      unfolding keys keyOf_def .
    from crossProduct_keys[OF this] show ?thesis
      by (auto simp: metroCities_def fuelTypes_def availableYears_def)
  qed
  from keys dist len prices fields show ?thesis by blast
qed

theorem generateSampleData_shape_witness:
  "length (generateSampleData (\<lambda>n. 1 / 2)) = 864
   \<and> keyOf (generateSampleData (\<lambda>n. 1 / 2) ! 0) = (''Mumbai'', ''petrol'', 2017, 1)
   \<and> 2017 \<le> year (generateSampleData (\<lambda>n. 1 / 2) ! 0)"
proof -
  have l: "length (generateSampleData (\<lambda>n. 1 / 2)) = 864"
    using generateSampleData_shape [of "\<lambda>n. 1 / 2"] by (simp add: metroCities_def)
  then have "generateSampleData (\<lambda>n. 1 / 2) ! 0 \<in> set (generateSampleData (\<lambda>n. 1 / 2))"
    by (intro nth_mem) simp
  then have y: "2017 \<le> year (generateSampleData (\<lambda>n. 1 / 2) ! 0)"
    using generateSampleData_shape [of "\<lambda>n. 1 / 2"] by blast
  have "map keyOf (generateSampleData (\<lambda>n. 1 / 2)) ! 0 = crossProduct ! 0"
    using generateSampleData_shape [of "\<lambda>n. 1 / 2"] by simp
  moreover have "crossProduct ! 0 = (''Mumbai'', ''petrol'', 2017, 1)"
    by (simp add: crossProduct_def metroCities_def fuelTypes_def availableYears_def upto.simps)
  ultimately have "keyOf (generateSampleData (\<lambda>n. 1 / 2) ! 0) = (''Mumbai'', ''petrol'', 2017, 1)"
    using l by simp
  with l y show ?thesis by blast
qed

end
